theory Spec2Isabelle
  imports Main "HOL-Library.Word"
begin

section \<open>The UF2 erase-block tool (util/add_uf2_erase_block.py)\<close>

text \<open>
  The tool reads a UF2 firmware image, rewrites the total-block counter of every 512-byte
  frame of the input, appends 64 synthesized frames that erase the user script area (the
  last 16 KiB of the 2 MiB flash) and writes the frames out one after the other.

  Bytes are \<open>8 word\<close>. Byte strings (\<open>bytes\<close>, \<open>bytearray\<close>) are lists of bytes.
  Python integers are \<open>int\<close> where they are packed by \<open>struct\<close>; lengths, loop indices
  and the module's size constants, which are never negative, are \<open>nat\<close>.
  \<open>struct.pack_into\<close> raises \<open>struct.error\<close> when the value does not fit the format or
  the buffer is too short, and a \<open>bytearray\<close> item assignment raises \<open>IndexError\<close> out
  of range: both are results of the model. The file contents are the argument and the
  result of \<open>modify_uf2\<close>; the two \<open>print\<close> lines at its end are not modelled.
\<close>

subsection \<open>Bytes, errors and the module constants\<close>

type_synonym byte = "8 word"

datatype error = StructError | IndexError

definition UF2_MAGIC_START0 :: int where
  "UF2_MAGIC_START0 = 0x0A324655"

definition UF2_MAGIC_START1 :: int where
  "UF2_MAGIC_START1 = 0x9E5D5157"

definition UF2_MAGIC_END :: int where
  "UF2_MAGIC_END = 0x0AB16F30"

definition USER_SCRIPT_OFFSET :: nat where
  "USER_SCRIPT_OFFSET = (2 * 1024 * 1024) - (16 * 1024)"

definition USER_SCRIPT_SIZE :: nat where
  "USER_SCRIPT_SIZE = 16 * 1024"

definition BLOCK_SIZE :: nat where
  "BLOCK_SIZE = 256"

subsection \<open>\<open>struct.pack_into("<I", buf, off, v)\<close>\<close>

text \<open>The four bytes of an unsigned 32-bit value, least significant first.\<close>

definition le32 :: "int \<Rightarrow> byte list" where
  "le32 v = [word_of_int v, word_of_int (v div 256),
             word_of_int (v div 256 div 256), word_of_int (v div 256 div 256 div 256)]"

text \<open>
  \<open>struct.pack_into\<close> writes the four bytes in place at \<open>off\<close>. It raises
  \<open>struct.error\<close> when the buffer has fewer than \<open>off + 4\<close> bytes and when the value
  is outside \<open>0 .. 4294967295\<close>.
\<close>

definition pack_into_I :: "byte list \<Rightarrow> nat \<Rightarrow> int \<Rightarrow> error + byte list" where
  "pack_into_I buf off v =
     (if length buf < off + 4 then Inl StructError
      else if v < 0 \<or> 4294967295 < v then Inl StructError
      else Inr (take off buf @ le32 v @ drop (off + 4) buf))"

text \<open>Sequencing of two steps, the first of which may raise.\<close>

definition and_then :: "error + 'a \<Rightarrow> ('a \<Rightarrow> error + 'b) \<Rightarrow> error + 'b" where
  "and_then r f = (case r of Inl e \<Rightarrow> Inl e | Inr x \<Rightarrow> f x)"

text \<open>The slice \<open>xs[a:b]\<close> for \<open>0 \<le> a\<close> and \<open>0 \<le> b\<close>; Python clips it to the list.\<close>

definition slice :: "'a list \<Rightarrow> nat \<Rightarrow> nat \<Rightarrow> 'a list" where
  "slice xs a b = drop a (take b xs)"

subsection \<open>\<open>create_erase_block\<close>\<close>

text \<open>
  The loop \<open>for i in range(BLOCK_SIZE): block[32 + i] = 0xFF\<close>, over the list of the
  indices still to visit.
\<close>

fun fill_payload :: "nat list \<Rightarrow> byte list \<Rightarrow> error + byte list" where
  "fill_payload [] block = Inr block"
| "fill_payload (i # is) block =
     (if 32 + i < length block then fill_payload is (block[32 + i := 0xFF])
      else Inl IndexError)"

definition create_erase_block :: "int \<Rightarrow> int \<Rightarrow> int \<Rightarrow> error + byte list" where
  "create_erase_block target_addr block_num total_blocks =
     and_then (pack_into_I (replicate 512 0) 0 UF2_MAGIC_START0) (\<lambda>block.
     and_then (pack_into_I block 4 UF2_MAGIC_START1) (\<lambda>block.
     and_then (pack_into_I block 8 0x2000) (\<lambda>block.
     and_then (pack_into_I block 12 target_addr) (\<lambda>block.
     and_then (pack_into_I block 16 (int BLOCK_SIZE)) (\<lambda>block.
     and_then (pack_into_I block 20 block_num) (\<lambda>block.
     and_then (pack_into_I block 24 total_blocks) (\<lambda>block.
     and_then (pack_into_I block 28 0xe48bff56) (\<lambda>block.
     and_then (fill_payload [0..<BLOCK_SIZE] block) (\<lambda>block.
     pack_into_I block (512 - 4) UF2_MAGIC_END)))))))))"

subsection \<open>\<open>modify_uf2\<close>\<close>

text \<open>
  The first loop: for each index, the frame \<open>original_data[i*512:(i+1)*512]\<close> is copied,
  its total-block counter at offset 24 is overwritten, and the frame is appended to
  \<open>blocks\<close>.
\<close>

fun read_original_blocks ::
  "byte list \<Rightarrow> nat \<Rightarrow> nat list \<Rightarrow> byte list list \<Rightarrow> error + byte list list" where
  "read_original_blocks original_data total_blocks [] blocks = Inr blocks"
| "read_original_blocks original_data total_blocks (i # is) blocks =
     (case pack_into_I (slice original_data (i * 512) ((i + 1) * 512)) 24 (int total_blocks) of
        Inl e \<Rightarrow> Inl e
      | Inr block \<Rightarrow> read_original_blocks original_data total_blocks is (blocks @ [block]))"

text \<open>
  The second loop. The source adds \<open>i * BLOCK_SIZE\<close> to the address
  \<open>0x10000000 + USER_SCRIPT_OFFSET\<close>; that address is the argument \<open>base\<close> here, and
  \<open>modify_uf2\<close> passes the source's value.
\<close>

fun add_erase_blocks ::
  "nat \<Rightarrow> nat \<Rightarrow> nat \<Rightarrow> nat list \<Rightarrow> byte list list \<Rightarrow> error + byte list list" where
  "add_erase_blocks base original_blocks total_blocks [] blocks = Inr blocks"
| "add_erase_blocks base original_blocks total_blocks (i # is) blocks =
     (let target_addr = base + (i * BLOCK_SIZE);
          block_num = original_blocks + i
      in case create_erase_block (int target_addr) (int block_num) (int total_blocks) of
           Inl e \<Rightarrow> Inl e
         | Inr erase_block \<Rightarrow>
             add_erase_blocks base original_blocks total_blocks is (blocks @ [erase_block]))"

text \<open>The result is the contents of the output file: the frames written in order.\<close>

definition modify_uf2 :: "byte list \<Rightarrow> error + byte list" where
  "modify_uf2 original_data =
     (let original_blocks = length original_data div 512;
          erase_blocks_needed = USER_SCRIPT_SIZE div BLOCK_SIZE;
          total_blocks = original_blocks + erase_blocks_needed
      in case read_original_blocks original_data total_blocks [0..<original_blocks] [] of
           Inl e \<Rightarrow> Inl e
         | Inr blocks \<Rightarrow>
             (case add_erase_blocks (0x10000000 + USER_SCRIPT_OFFSET) original_blocks
                     total_blocks [0..<erase_blocks_needed] blocks of
                Inl e \<Rightarrow> Inl e
              | Inr blocks \<Rightarrow> Inr (concat blocks)))"

subsection \<open>Reading an image\<close>

text \<open>
  The frame at a position of an image, and the unsigned 32-bit little-endian field of a
  frame at a byte offset (what \<open>struct.unpack_from("<I", frame, off)\<close> returns; \<open>None\<close>
  where the frame is too short). The fields of the frame layout are at the offsets
  0 and 4 (start magics), 8 (flags), 12 (target address), 16 (payload size),
  20 (block index), 24 (block count), 28 (family id) and 508 (end magic); the payload is
  the 256 bytes from offset 32.
\<close>

definition frame :: "byte list \<Rightarrow> nat \<Rightarrow> byte list" where
  "frame img i = slice img (i * 512) ((i + 1) * 512)"

definition field32 :: "byte list \<Rightarrow> nat \<Rightarrow> int option" where
  "field32 buf off =
     (if length buf < off + 4 then None
      else Some (uint (buf ! off) + 256 * uint (buf ! (off + 1))
                 + 65536 * uint (buf ! (off + 2)) + 16777216 * uint (buf ! (off + 3))))"

text \<open>Whether the family-present bit \<open>0x2000\<close> is set in the flags field of a frame.\<close>

definition family_present :: "byte list \<Rightarrow> bool" where
  "family_present fr =
     (case field32 fr 8 of None \<Rightarrow> False | Some flags \<Rightarrow> and flags 0x2000 \<noteq> 0)"

subsection \<open>Closed forms used in the proofs\<close>

text \<open>
  What a successful \<open>pack_into_I\<close> leaves in the buffer, what the payload loop leaves,
  the frame that \<open>create_erase_block\<close> builds, and the list \<open>blocks\<close> at the end of
  \<open>modify_uf2\<close>. The lemmas below show that the functions of the tool compute them.
\<close>

definition put32 :: "byte list \<Rightarrow> nat \<Rightarrow> int \<Rightarrow> byte list" where
  "put32 buf off v = take off buf @ le32 v @ drop (off + 4) buf"

definition filled :: "nat list \<Rightarrow> byte list \<Rightarrow> byte list" where
  "filled is block = foldl (\<lambda>b i. b[32 + i := 0xFF]) block is"

definition erase_frame :: "int \<Rightarrow> int \<Rightarrow> int \<Rightarrow> byte list" where
  "erase_frame a n t =
     put32 (filled [0..<BLOCK_SIZE]
       (put32 (put32 (put32 (put32 (put32 (put32 (put32 (put32 (replicate 512 0)
          0 UF2_MAGIC_START0) 4 UF2_MAGIC_START1) 8 0x2000) 12 a) 16 (int BLOCK_SIZE))
          20 n) 24 t) 28 0xe48bff56)) 508 UF2_MAGIC_END"

definition output_blocks :: "byte list \<Rightarrow> byte list list" where
  "output_blocks data =
     (let k = length data div 512 in
      map (\<lambda>i. put32 (frame data i) 24 (int (k + 64))) [0..<k]
      @ map (\<lambda>i. erase_frame (int (0x101FC000 + i * 256)) (int (k + i)) (int (k + 64)))
          [0..<64])"

subsection \<open>Sample images\<close>

text \<open>
  A 512-byte frame in the UF2 layout with a chosen first magic word, block index, block
  count and family id (flags \<open>0x2000\<close>, target address \<open>0x10000000\<close>, payload size 256,
  an all-zero payload area), and the images built from it that the theorems below are
  evaluated on.
\<close>

definition sample_frame :: "int \<Rightarrow> int \<Rightarrow> int \<Rightarrow> int \<Rightarrow> byte list" where
  "sample_frame magic0 block_index block_count family_id =
     le32 magic0 @ le32 0x9E5D5157 @ le32 0x2000 @ le32 0x10000000 @ le32 256
     @ le32 block_index @ le32 block_count @ le32 family_id
     @ replicate 476 0 @ le32 0x0AB16F30"

text \<open>One frame whose block index field says 7 although it is the frame at position 0.\<close>

definition stale_index_image :: "byte list" where
  "stale_index_image = sample_frame 0x0A324655 7 1 0xe48bff56"

text \<open>One whole frame followed by a single dangling byte: 513 bytes.\<close>

definition dangling_image :: "byte list" where
  "dangling_image = sample_frame 0x0A324655 0 1 0xe48bff56 @ [0x55]"

text \<open>One frame whose first magic word is \<open>0x0A324654\<close> instead of \<open>0x0A324655\<close>.\<close>

definition bad_magic_image :: "byte list" where
  "bad_magic_image = sample_frame 0x0A324654 0 1 0xe48bff56"

text \<open>One frame that has the family-present flag and the family id \<open>0x12345678\<close>.\<close>

definition other_family_image :: "byte list" where
  "other_family_image = sample_frame 0x0A324655 0 1 0x12345678"

text \<open>
  A hundred frames, numbered 0 to 99, each with block count 100: 51200 bytes, with the
  family id \<open>0xe48bff56\<close>.
\<close>

definition hundred_block_image :: "byte list" where
  "hundred_block_image =
     concat (map (\<lambda>i. sample_frame 0x0A324655 (int i) 100 0xe48bff56) [0..<100])"

text \<open>The payload area of a frame: the 256 bytes from offset 32.\<close>

definition payload :: "byte list \<Rightarrow> byte list" where
  "payload fr = slice fr 32 (32 + 256)"

subsection \<open>The same code over a store of \<open>bytearray\<close> objects\<close>

text \<open>
  The functions above give each call its own buffer as a value. The source works on
  mutable objects: every call of \<open>create_erase_block\<close> and every turn of the first loop
  of \<open>modify_uf2\<close> allocates a \<open>bytearray\<close> and writes into it. Here the store is the
  list of the \<open>bytearray\<close> objects allocated so far, an object's reference is its
  position in the list, and a run takes the store it starts in and returns its result,
  a value or the exception raised, with the store it leaves. A reference is only ever
  obtained from an allocation, so that it lies within the store. A second call starts in
  the store the first one left.
\<close>

type_synonym heap = "byte list list"

type_synonym 'a run = "heap \<Rightarrow> (error + 'a) \<times> heap"

text \<open>Sequencing: the second step runs in the store the first one leaves, unless it raised.\<close>

definition then_run :: "'a run \<Rightarrow> ('a \<Rightarrow> 'b run) \<Rightarrow> 'b run" where
  "then_run m f h = (case m h of (Inl e, h') \<Rightarrow> (Inl e, h') | (Inr x, h') \<Rightarrow> f x h')"

text \<open>
  \<open>bytearray(n)\<close> is a new object of \<open>n\<close> zero bytes and \<open>bytearray(bs)\<close> a new object
  with a copy of \<open>bs\<close>; the reference to it is returned.
\<close>

definition bytearray_zeros :: "nat \<Rightarrow> nat run" where
  "bytearray_zeros n h = (Inr (length h), h @ [replicate n 0])"

definition bytearray_copy :: "byte list \<Rightarrow> nat run" where
  "bytearray_copy bs h = (Inr (length h), h @ [bs])"

text \<open>
  \<open>struct.pack_into\<close> and the item assignment \<open>block[i] = b\<close> change the object that
  \<open>block\<close> refers to, in place; \<open>bytes(block)\<close> reads it.
\<close>

definition pack_into_at :: "nat \<Rightarrow> nat \<Rightarrow> int \<Rightarrow> unit run" where
  "pack_into_at p off v h =
     (case pack_into_I (h ! p) off v of
        Inl e \<Rightarrow> (Inl e, h)
      | Inr buf \<Rightarrow> (Inr (), h[p := buf]))"

definition setitem_at :: "nat \<Rightarrow> nat \<Rightarrow> byte \<Rightarrow> unit run" where
  "setitem_at p i b h =
     (if i < length (h ! p) then (Inr (), h[p := (h ! p)[i := b]]) else (Inl IndexError, h))"

definition bytes_at :: "nat \<Rightarrow> byte list run" where
  "bytes_at p h = (Inr (h ! p), h)"

text \<open>\<open>create_erase_block\<close>, statement by statement, on the object it allocates.\<close>

fun fill_payload_at :: "nat \<Rightarrow> nat list \<Rightarrow> unit run" where
  "fill_payload_at p [] h = (Inr (), h)"
| "fill_payload_at p (i # is) h =
     (case setitem_at p (32 + i) 0xFF h of
        (Inl e, h') \<Rightarrow> (Inl e, h')
      | (Inr u, h') \<Rightarrow> fill_payload_at p is h')"

definition create_erase_block_heap :: "int \<Rightarrow> int \<Rightarrow> int \<Rightarrow> byte list run" where
  "create_erase_block_heap target_addr block_num total_blocks =
     then_run (bytearray_zeros 512) (\<lambda>block.
     then_run (pack_into_at block 0 UF2_MAGIC_START0) (\<lambda>_.
     then_run (pack_into_at block 4 UF2_MAGIC_START1) (\<lambda>_.
     then_run (pack_into_at block 8 0x2000) (\<lambda>_.
     then_run (pack_into_at block 12 target_addr) (\<lambda>_.
     then_run (pack_into_at block 16 (int BLOCK_SIZE)) (\<lambda>_.
     then_run (pack_into_at block 20 block_num) (\<lambda>_.
     then_run (pack_into_at block 24 total_blocks) (\<lambda>_.
     then_run (pack_into_at block 28 0xe48bff56) (\<lambda>_.
     then_run (fill_payload_at block [0..<BLOCK_SIZE]) (\<lambda>_.
     then_run (pack_into_at block (512 - 4) UF2_MAGIC_END) (\<lambda>_.
     bytes_at block)))))))))))"

text \<open>
  The two loops of \<open>modify_uf2\<close> and the function itself. The list \<open>blocks\<close> holds
  \<open>bytes\<close> values, which are immutable.
\<close>

fun read_original_blocks_heap ::
  "byte list \<Rightarrow> nat \<Rightarrow> nat list \<Rightarrow> byte list list \<Rightarrow> byte list list run" where
  "read_original_blocks_heap original_data total_blocks [] blocks h = (Inr blocks, h)"
| "read_original_blocks_heap original_data total_blocks (i # is) blocks h =
     (case then_run (bytearray_copy (slice original_data (i * 512) ((i + 1) * 512))) (\<lambda>block.
           then_run (pack_into_at block 24 (int total_blocks)) (\<lambda>_.
           bytes_at block)) h of
        (Inl e, h') \<Rightarrow> (Inl e, h')
      | (Inr b, h') \<Rightarrow> read_original_blocks_heap original_data total_blocks is (blocks @ [b]) h')"

fun add_erase_blocks_heap ::
  "nat \<Rightarrow> nat \<Rightarrow> nat \<Rightarrow> nat list \<Rightarrow> byte list list \<Rightarrow> byte list list run" where
  "add_erase_blocks_heap base original_blocks total_blocks [] blocks h = (Inr blocks, h)"
| "add_erase_blocks_heap base original_blocks total_blocks (i # is) blocks h =
     (let target_addr = base + (i * BLOCK_SIZE);
          block_num = original_blocks + i
      in case create_erase_block_heap (int target_addr) (int block_num) (int total_blocks) h of
           (Inl e, h') \<Rightarrow> (Inl e, h')
         | (Inr erase_block, h') \<Rightarrow>
             add_erase_blocks_heap base original_blocks total_blocks is
               (blocks @ [erase_block]) h')"

definition modify_uf2_heap :: "byte list \<Rightarrow> byte list run" where
  "modify_uf2_heap original_data =
     (let original_blocks = length original_data div 512;
          erase_blocks_needed = USER_SCRIPT_SIZE div BLOCK_SIZE;
          total_blocks = original_blocks + erase_blocks_needed
      in then_run (read_original_blocks_heap original_data total_blocks [0..<original_blocks] [])
           (\<lambda>blocks.
         then_run (add_erase_blocks_heap (0x10000000 + USER_SCRIPT_OFFSET) original_blocks
                     total_blocks [0..<erase_blocks_needed] blocks) (\<lambda>blocks.
         (\<lambda>h. (Inr (concat blocks), h)))))"

section \<open>Packing and reading 32-bit fields\<close>

lemma length_le32: "length (le32 v) = 4"
  by (simp add: le32_def)

lemma le32_value:
  assumes "0 \<le> v" "v \<le> 4294967295"
  shows "uint (le32 v ! 0) + 256 * uint (le32 v ! 1) + 65536 * uint (le32 v ! 2)
           + 16777216 * uint (le32 v ! 3) = v"
proof -
  define q1 where "q1 = v div 256"
  define q2 where "q2 = q1 div 256"
  define q3 where "q3 = q2 div 256"
  have v: "v = v mod 256 + 256 * q1" unfolding q1_def by simp
  have q1: "q1 = q1 mod 256 + 256 * q2" unfolding q2_def by simp
  have q2: "q2 = q2 mod 256 + 256 * q3" unfolding q3_def by simp
  have "q1 < 16777216" using assms unfolding q1_def by linarith
  then have "q2 < 65536" unfolding q2_def by linarith
  then have b3: "q3 < 256" unfolding q3_def by linarith
  have "0 \<le> q1" using assms unfolding q1_def by simp
  then have "0 \<le> q2" unfolding q2_def by simp
  then have "0 \<le> q3" unfolding q3_def by simp
  with b3 have q3: "q3 mod 256 = q3" by simp
  have "uint (le32 v ! 0) + 256 * uint (le32 v ! 1) + 65536 * uint (le32 v ! 2)
           + 16777216 * uint (le32 v ! 3)
        = v mod 256 + 256 * (q1 mod 256) + 65536 * (q2 mod 256) + 16777216 * (q3 mod 256)"
    by (simp add: le32_def uint_word_of_int q1_def q2_def q3_def)
  also have "\<dots> = v" using v q1 q2 q3 by linarith
  finally show ?thesis .
qed

lemma length_put32: "off + 4 \<le> length buf \<Longrightarrow> length (put32 buf off v) = length buf"
  by (simp add: put32_def length_le32)

lemma nth_put32_other:
  "off + 4 \<le> length buf \<Longrightarrow> j < off \<or> off + 4 \<le> j \<Longrightarrow> put32 buf off v ! j = buf ! j"
  by (auto simp: put32_def nth_append length_le32)

lemma nth_put32_same:
  "off + 4 \<le> length buf \<Longrightarrow> k < 4 \<Longrightarrow> put32 buf off v ! (off + k) = le32 v ! k"
  by (simp add: put32_def nth_append length_le32)

lemma pack_into_I_ok:
  "off + 4 \<le> length buf \<Longrightarrow> 0 \<le> v \<Longrightarrow> v \<le> 4294967295 \<Longrightarrow>
     pack_into_I buf off v = Inr (put32 buf off v)"
  by (simp add: pack_into_I_def put32_def)

lemma field32_put32_same:
  assumes "off + 4 \<le> length buf" "0 \<le> v" "v \<le> 4294967295"
  shows "field32 (put32 buf off v) off = Some v"
proof -
  have "put32 buf off v ! off = le32 v ! 0"
    using nth_put32_same [OF assms(1), of 0 v] by simp
  moreover have "put32 buf off v ! (off + 1) = le32 v ! 1"
    using assms(1) by (rule nth_put32_same) simp
  moreover have "put32 buf off v ! (off + 2) = le32 v ! 2"
    using assms(1) by (rule nth_put32_same) simp
  moreover have "put32 buf off v ! (off + 3) = le32 v ! 3"
    using assms(1) by (rule nth_put32_same) simp
  ultimately show ?thesis
    using assms le32_value [OF assms(2,3)] by (simp add: field32_def length_put32)
qed

lemma field32_put32_other:
  assumes "off + 4 \<le> length buf" "off' + 4 \<le> off \<or> off + 4 \<le> off'"
  shows "field32 (put32 buf off v) off' = field32 buf off'"
  using assms by (auto simp: field32_def length_put32 nth_put32_other)

lemma take_put32: "off + 4 \<le> length buf \<Longrightarrow> take off (put32 buf off v) = take off buf"
  by (simp add: put32_def)

lemma drop_put32: "off + 4 \<le> length buf \<Longrightarrow> drop (off + 4) (put32 buf off v) = drop (off + 4) buf"
  by (simp add: put32_def length_le32)

lemma mid_put32: "off + 4 \<le> length buf \<Longrightarrow> slice (put32 buf off v) off (off + 4) = le32 v"
  by (simp add: put32_def slice_def length_le32)

lemma pack_into_I_fail:
  "v < 0 \<or> 4294967295 < v \<Longrightarrow> pack_into_I buf off v = Inl StructError"
  by (auto simp: pack_into_I_def)

lemma slice_append_skip:
  "length xs \<le> a \<Longrightarrow> slice (xs @ ys) a b = slice ys (a - length xs) (b - length xs)"
  by (cases "b \<le> length xs") (simp_all add: slice_def)

lemma payload_put32:
  assumes "28 \<le> length buf"
  shows "payload (put32 buf 24 v) = payload buf"
proof -
  have p: "put32 buf 24 v = (take 24 buf @ le32 v) @ drop 28 buf"
    by (simp add: put32_def)
  have l: "length (take 24 buf @ le32 v) = 28"
    using assms by (simp add: length_le32)
  have "payload (put32 buf 24 v) = slice (drop 28 buf) 4 260"
    unfolding payload_def p using slice_append_skip [of "take 24 buf @ le32 v" 32 "drop 28 buf" 288]
    by (simp only: l) simp
  moreover have "length (take 28 buf) = 28" using assms by simp
  then have "slice (take 28 buf @ drop 28 buf) 32 288 = slice (drop 28 buf) 4 260"
    using slice_append_skip [of "take 28 buf" 32 "drop 28 buf" 288] by (simp only:) simp
  then have "payload buf = slice (drop 28 buf) 4 260"
    by (simp add: payload_def)
  ultimately show ?thesis by simp
qed

section \<open>The payload loop and \<open>create_erase_block\<close>\<close>

lemma fill_payload_ok:
  "\<forall>i\<in>set is. 32 + i < length block \<Longrightarrow> fill_payload is block = Inr (filled is block)"
  by (induction "is" arbitrary: block) (simp_all add: filled_def)

lemma length_filled: "length (filled is block) = length block"
  unfolding filled_def by (induction "is" arbitrary: block) simp_all

lemma nth_filled:
  "j < length block \<Longrightarrow>
     filled is block ! j = (if 32 \<le> j \<and> j - 32 \<in> set is then 0xFF else block ! j)"
  unfolding filled_def
proof (induction "is" arbitrary: block)
  case Nil
  then show ?case by simp
next
  case (Cons i "is")
  then show ?case by (auto simp: nth_list_update)
qed

lemma field32_filled_other:
  assumes "off + 4 \<le> length block" "off + 4 \<le> 32 \<or> (\<forall>i\<in>set is. 32 + i < off)"
  shows "field32 (filled is block) off = field32 block off"
  using assms by (auto simp: field32_def length_filled nth_filled)

lemmas uf2_consts = UF2_MAGIC_START0_def UF2_MAGIC_START1_def UF2_MAGIC_END_def BLOCK_SIZE_def

lemmas frame_simps = length_put32 length_filled field32_put32_other field32_put32_same
  field32_filled_other nth_put32_other nth_filled

lemma create_erase_block_ok:
  assumes "0 \<le> a" "a \<le> 4294967295" "0 \<le> n" "n \<le> 4294967295" "0 \<le> t" "t \<le> 4294967295"
  shows "create_erase_block a n t = Inr (erase_frame a n t)"
  using assms
  by (simp add: create_erase_block_def erase_frame_def and_then_def pack_into_I_ok
      fill_payload_ok length_put32 length_filled uf2_consts)

lemma length_erase_frame: "length (erase_frame a n t) = 512"
  by (simp add: erase_frame_def length_put32 length_filled)

lemma erase_frame_magic0: "field32 (erase_frame a n t) 0 = Some UF2_MAGIC_START0"
  by (simp add: erase_frame_def frame_simps uf2_consts)

lemma erase_frame_magic1: "field32 (erase_frame a n t) 4 = Some UF2_MAGIC_START1"
  by (simp add: erase_frame_def frame_simps uf2_consts)

lemma erase_frame_flags: "field32 (erase_frame a n t) 8 = Some 0x2000"
  by (simp add: erase_frame_def frame_simps uf2_consts)

lemma erase_frame_addr:
  "0 \<le> a \<Longrightarrow> a \<le> 4294967295 \<Longrightarrow> field32 (erase_frame a n t) 12 = Some a"
  by (simp add: erase_frame_def frame_simps uf2_consts)

lemma erase_frame_size: "field32 (erase_frame a n t) 16 = Some 256"
  by (simp add: erase_frame_def frame_simps uf2_consts)

lemma erase_frame_index:
  "0 \<le> n \<Longrightarrow> n \<le> 4294967295 \<Longrightarrow> field32 (erase_frame a n t) 20 = Some n"
  by (simp add: erase_frame_def frame_simps uf2_consts)

lemma erase_frame_count:
  "0 \<le> t \<Longrightarrow> t \<le> 4294967295 \<Longrightarrow> field32 (erase_frame a n t) 24 = Some t"
  by (simp add: erase_frame_def frame_simps uf2_consts)

lemma erase_frame_family: "field32 (erase_frame a n t) 28 = Some 0xe48bff56"
  by (simp add: erase_frame_def frame_simps uf2_consts)

lemma erase_frame_magic_end: "field32 (erase_frame a n t) 508 = Some UF2_MAGIC_END"
  by (simp add: erase_frame_def frame_simps uf2_consts)

lemma erase_frame_payload: "j < 256 \<Longrightarrow> erase_frame a n t ! (32 + j) = 0xFF"
  by (simp add: erase_frame_def frame_simps uf2_consts)

lemma erase_frame_family_present: "family_present (erase_frame a n t)"
  by (simp add: family_present_def erase_frame_flags)

text \<open>Outside the 32-bit range of an argument the function raises; a result has 512 bytes.\<close>

lemma create_erase_block_fail:
  assumes "\<not> (0 \<le> a \<and> a \<le> 4294967295 \<and> 0 \<le> n \<and> n \<le> 4294967295
              \<and> 0 \<le> t \<and> t \<le> 4294967295)"
  shows "create_erase_block a n t = Inl StructError"
proof -
  consider (addr) "a < 0 \<or> 4294967295 < a"
    | (num) "0 \<le> a" "a \<le> 4294967295" "n < 0 \<or> 4294967295 < n"
    | (tot) "0 \<le> a" "a \<le> 4294967295" "0 \<le> n" "n \<le> 4294967295" "t < 0 \<or> 4294967295 < t"
    using assms by linarith
  then show ?thesis
  proof cases
    case addr
    then show ?thesis
      by (simp add: create_erase_block_def and_then_def pack_into_I_ok pack_into_I_fail
          length_put32 uf2_consts)
  next
    case num
    then show ?thesis
      by (simp add: create_erase_block_def and_then_def pack_into_I_ok pack_into_I_fail
          length_put32 uf2_consts)
  next
    case tot
    then show ?thesis
      by (simp add: create_erase_block_def and_then_def pack_into_I_ok pack_into_I_fail
          length_put32 uf2_consts)
  qed
qed

lemma create_erase_block_length:
  assumes "create_erase_block a n t = Inr b"
  shows "length b = 512"
proof (cases "0 \<le> a \<and> a \<le> 4294967295 \<and> 0 \<le> n \<and> n \<le> 4294967295
              \<and> 0 \<le> t \<and> t \<le> 4294967295")
  case True
  then have "create_erase_block a n t = Inr (erase_frame a n t)"
    by (intro create_erase_block_ok) simp_all
  with assms have "b = erase_frame a n t" by simp
  then show ?thesis by (simp add: length_erase_frame)
next
  case False
  then have "create_erase_block a n t = Inl StructError" by (rule create_erase_block_fail)
  with assms show ?thesis by simp
qed

section \<open>The two loops and \<open>modify_uf2\<close>\<close>

lemma read_original_blocks_ok:
  assumes "tot \<le> 4294967295" "\<forall>i\<in>set is. (i + 1) * 512 \<le> length data"
  shows "read_original_blocks data tot is blocks
           = Inr (blocks @ map (\<lambda>i. put32 (frame data i) 24 (int tot)) is)"
  using assms(2)
proof (induction "is" arbitrary: blocks)
  case Nil
  then show ?case by simp
next
  case (Cons i "is")
  have "pack_into_I (slice data (i * 512) ((i + 1) * 512)) 24 (int tot)
          = Inr (put32 (slice data (i * 512) ((i + 1) * 512)) 24 (int tot))"
    using Cons.prems assms(1) by (intro pack_into_I_ok) (simp_all add: slice_def)
  with Cons show ?case by (simp add: frame_def)
qed

lemma add_erase_blocks_ok:
  assumes "tot \<le> 4294967295"
    "\<forall>i\<in>set is. base + i * 256 \<le> 4294967295 \<and> original + i \<le> 4294967295"
  shows "add_erase_blocks base original tot is blocks
           = Inr (blocks @ map (\<lambda>i. erase_frame (int (base + i * 256)) (int (original + i))
                                   (int tot)) is)"
  using assms(2)
proof (induction "is" arbitrary: blocks)
  case Nil
  then show ?case by simp
next
  case (Cons i "is")
  have "create_erase_block (int (base + i * 256)) (int (original + i)) (int tot)
          = Inr (erase_frame (int (base + i * 256)) (int (original + i)) (int tot))"
    using Cons.prems assms(1) by (intro create_erase_block_ok) simp_all
  with Cons show ?case by (simp add: BLOCK_SIZE_def)
qed

text \<open>
  The transform succeeds whenever the new total, the number of whole input frames plus
  64, fits the 32-bit block count field.
\<close>

lemma modify_uf2_ok:
  assumes "length data div 512 + 64 \<le> 4294967295"
  shows "modify_uf2 data = Inr (concat (output_blocks data))"
proof -
  let ?k = "length data div 512"
  have r: "read_original_blocks data (?k + 64) [0..<?k] []
             = Inr ([] @ map (\<lambda>i. put32 (frame data i) 24 (int (?k + 64))) [0..<?k])"
    using assms by (intro read_original_blocks_ok) auto
  have e: "add_erase_blocks 0x101FC000 ?k (?k + 64) [0..<64] bs
             = Inr (bs @ map (\<lambda>i. erase_frame (int (0x101FC000 + i * 256)) (int (?k + i))
                                     (int (?k + 64))) [0..<64])" for bs
    using assms by (intro add_erase_blocks_ok) auto
  show ?thesis
    using r e
    by (simp add: modify_uf2_def output_blocks_def Let_def USER_SCRIPT_SIZE_def
        USER_SCRIPT_OFFSET_def BLOCK_SIZE_def)
qed

text \<open>
  Beyond that, \<open>struct.pack_into\<close> raises on the first frame: an input of
  \<open>2\<^sup>3\<^sup>2 - 64\<close> frames or more (2 TiB) has no output.
\<close>

lemma modify_uf2_overflow:
  assumes "4294967295 < length data div 512 + 64"
  shows "modify_uf2 data = Inl StructError"
proof -
  let ?k = "length data div 512"
  obtain n where n: "?k = Suc n" using assms by (cases ?k) auto
  have "[0..<?k] = 0 # [1..<?k]" unfolding n by (simp add: upt_conv_Cons)
  moreover have "pack_into_I (slice data (0 * 512) ((0 + 1) * 512)) 24 (int (?k + 64))
                   = Inl StructError"
    using assms by (simp add: pack_into_I_def)
  ultimately show ?thesis
    by (simp add: modify_uf2_def Let_def USER_SCRIPT_SIZE_def BLOCK_SIZE_def)
qed

lemma length_output_blocks: "length (output_blocks data) = length data div 512 + 64"
  by (simp add: output_blocks_def Let_def)

lemma frame_bound: "i < length data div 512 \<Longrightarrow> (i + 1) * 512 \<le> length data"
proof -
  assume "i < length data div 512"
  then have "(i + 1) * 512 \<le> (length data div 512) * 512" by simp
  also have "\<dots> \<le> length data" by simp
  finally show ?thesis .
qed

lemma length_frame: "i < length data div 512 \<Longrightarrow> length (frame data i) = 512"
  using frame_bound [of i data] by (simp add: frame_def slice_def)

lemma output_blocks_all_512: "b \<in> set (output_blocks data) \<Longrightarrow> length b = 512"
  by (auto simp: output_blocks_def Let_def length_put32 length_frame length_erase_frame)

lemma length_concat_512:
  "\<forall>b\<in>set bs. length b = 512 \<Longrightarrow> length (concat bs) = 512 * length bs"
  by (induction bs) simp_all

lemma frame_concat_512:
  "\<forall>b\<in>set bs. length b = 512 \<Longrightarrow> i < length bs \<Longrightarrow> frame (concat bs) i = bs ! i"
proof (induction bs arbitrary: i)
  case Nil
  then show ?case by simp
next
  case (Cons b bs)
  show ?case
  proof (cases i)
    case 0
    with Cons.prems show ?thesis by (simp add: frame_def slice_def)
  next
    case (Suc j)
    with Cons.prems have "frame (concat bs) j = bs ! j" by (intro Cons.IH) simp_all
    with Suc Cons.prems show ?thesis by (simp add: frame_def slice_def)
  qed
qed

lemma output_original:
  "i < length data div 512 \<Longrightarrow>
     frame (concat (output_blocks data)) i
       = put32 (frame data i) 24 (int (length data div 512 + 64))"
  using frame_concat_512 [of "output_blocks data" i]
  by (simp add: output_blocks_all_512 length_output_blocks)
     (simp add: output_blocks_def Let_def nth_append)

lemma output_erase:
  "i < 64 \<Longrightarrow>
     frame (concat (output_blocks data)) (length data div 512 + i)
       = erase_frame (int (0x101FC000 + i * 256)) (int (length data div 512 + i))
           (int (length data div 512 + 64))"
  using frame_concat_512 [of "output_blocks data" "length data div 512 + i"]
  by (simp add: output_blocks_all_512 length_output_blocks)
     (simp add: output_blocks_def Let_def nth_append)

lemma erase_position:
  assumes "length data div 512 \<le> i" "i < length data div 512 + 64"
  shows "frame (concat (output_blocks data)) i
           = erase_frame (int (0x101FC000 + (i - length data div 512) * 256)) (int i)
               (int (length data div 512 + 64))"
  using assms output_erase [of "i - length data div 512" data] by simp

lemma length_output: "length (concat (output_blocks data)) = 512 * (length data div 512 + 64)"
  using length_concat_512 [of "output_blocks data"]
  by (simp add: output_blocks_all_512 length_output_blocks)

lemma original_field_kept:
  assumes "i < length data div 512" "off + 4 \<le> 24 \<or> 28 \<le> off"
  shows "field32 (frame (concat (output_blocks data)) i) off = field32 (frame data i) off"
  using assms by (auto simp: output_original field32_put32_other length_frame)

lemma original_byte_kept:
  assumes "i < length data div 512" "j < 24 \<or> 28 \<le> j"
  shows "frame (concat (output_blocks data)) i ! j = frame data i ! j"
  using assms by (auto simp: output_original nth_put32_other length_frame)

lemma original_count:
  assumes "i < length data div 512" "length data div 512 + 64 \<le> 4294967295"
  shows "field32 (frame (concat (output_blocks data)) i) 24
           = Some (int (length data div 512 + 64))"
  using assms by (simp add: output_original field32_put32_same length_frame)

text \<open>The output depends on the whole frames of the input only.\<close>

lemma frame_take:
  assumes "i < k" "512 * k \<le> length data"
  shows "frame (take (512 * k) data) i = frame data i"
proof -
  have "(i + 1) * 512 \<le> 512 * k" using assms(1) by simp
  then show ?thesis by (simp add: frame_def slice_def min_def)
qed

lemma output_blocks_prefix:
  assumes "length data' div 512 = length data div 512"
    "\<forall>i < length data div 512. frame data' i = frame data i"
  shows "output_blocks data' = output_blocks data"
  using assms by (simp add: output_blocks_def Let_def)

lemma len_take_frames:
  "length (take (512 * (length data div 512)) data) div 512 = length data div 512"
proof -
  have le: "512 * (length data div 512) \<le> length data" by simp
  then show ?thesis by (simp add: min_def)
qed

lemma output_blocks_take:
  "output_blocks (take (512 * (length data div 512)) data) = output_blocks data"
proof (rule output_blocks_prefix)
  show "length (take (512 * (length data div 512)) data) div 512 = length data div 512"
    by (rule len_take_frames)
  have "512 * (length data div 512) \<le> length data" by simp
  then show "\<forall>i<length data div 512.
               frame (take (512 * (length data div 512)) data) i = frame data i"
    by (simp add: frame_take)
qed

lemma payload_kept:
  "i < length data div 512 \<Longrightarrow>
     payload (frame (concat (output_blocks data)) i) = payload (frame data i)"
  by (simp add: output_original payload_put32 length_frame)

lemma frame_append:
  assumes "(i + 1) * 512 \<le> length xs"
  shows "frame (xs @ ys) i = frame xs i"
  using assms by (simp add: frame_def slice_def)

lemma length_take_frames:
  "length (take (512 * (length data div 512)) data) = 512 * (length data div 512)"
proof -
  have "512 * (length data div 512) \<le> length data" by simp
  then show ?thesis by (simp only: length_take min_absorb2)
qed

lemma output_blocks_replace_tail:
  assumes "length tail < 512"
  shows "output_blocks (take (512 * (length data div 512)) data @ tail) = output_blocks data"
proof (rule output_blocks_prefix)
  let ?k = "length data div 512"
  let ?xs = "take (512 * ?k) data"
  show "length (?xs @ tail) div 512 = ?k"
    using assms by (simp add: length_take_frames del: length_take)
  show "\<forall>i < ?k. frame (?xs @ tail) i = frame data i"
  proof (intro allI impI)
    fix i assume i: "i < ?k"
    then have "(i + 1) * 512 \<le> 512 * ?k" by simp
    then have "frame (?xs @ tail) i = frame ?xs i"
      by (intro frame_append) (simp only: length_take_frames)
    also have "\<dots> = frame data i" using i by (intro frame_take) simp_all
    finally show "frame (?xs @ tail) i = frame data i" .
  qed
qed

section \<open>Runs over the store\<close>

text \<open>
  Started in any store, a run of \<open>create_erase_block\<close> adds one object to the store,
  changes none that was there, and has the result of the function on values; the runs of
  the loops and of \<open>modify_uf2\<close> have the results of theirs.
\<close>

lemma pack_into_at_ok:
  "off + 4 \<le> length buf \<Longrightarrow> 0 \<le> v \<Longrightarrow> v \<le> 4294967295 \<Longrightarrow>
     pack_into_at (length h) off v (h @ [buf]) = (Inr (), h @ [put32 buf off v])"
  by (simp add: pack_into_at_def pack_into_I_ok)

lemma pack_into_at_fail:
  "v < 0 \<or> 4294967295 < v \<Longrightarrow>
     pack_into_at (length h) off v (h @ [buf]) = (Inl StructError, h @ [buf])"
  by (simp add: pack_into_at_def pack_into_I_fail)

lemma fill_payload_at_ok:
  "\<forall>i\<in>set is. 32 + i < length buf \<Longrightarrow>
     fill_payload_at (length h) is (h @ [buf]) = (Inr (), h @ [filled is buf])"
  by (induction "is" arbitrary: buf) (simp_all add: filled_def setitem_at_def)

lemma bytes_at_last: "bytes_at (length h) (h @ [buf]) = (Inr buf, h @ [buf])"
  by (simp add: bytes_at_def)

lemmas heap_steps = then_run_def bytearray_zeros_def pack_into_at_ok pack_into_at_fail
  fill_payload_at_ok bytes_at_last length_put32 length_filled

lemma create_erase_block_heap_ok:
  assumes "0 \<le> a" "a \<le> 4294967295" "0 \<le> n" "n \<le> 4294967295" "0 \<le> t" "t \<le> 4294967295"
  shows "create_erase_block_heap a n t h = (Inr (erase_frame a n t), h @ [erase_frame a n t])"
  using assms by (simp add: create_erase_block_heap_def erase_frame_def heap_steps uf2_consts)

lemma create_erase_block_heap_fail:
  assumes "\<not> (0 \<le> a \<and> a \<le> 4294967295 \<and> 0 \<le> n \<and> n \<le> 4294967295
              \<and> 0 \<le> t \<and> t \<le> 4294967295)"
  shows "\<exists>buf. create_erase_block_heap a n t h = (Inl StructError, h @ [buf])"
proof -
  consider (addr) "a < 0 \<or> 4294967295 < a"
    | (num) "0 \<le> a" "a \<le> 4294967295" "n < 0 \<or> 4294967295 < n"
    | (tot) "0 \<le> a" "a \<le> 4294967295" "0 \<le> n" "n \<le> 4294967295" "t < 0 \<or> 4294967295 < t"
    using assms by linarith
  then show ?thesis
  proof cases
    case addr
    then show ?thesis
      by (simp add: create_erase_block_heap_def heap_steps uf2_consts)
  next
    case num
    then show ?thesis
      by (simp add: create_erase_block_heap_def heap_steps uf2_consts)
  next
    case tot
    then show ?thesis
      by (simp add: create_erase_block_heap_def heap_steps uf2_consts)
  qed
qed

lemma create_erase_block_heap_pure:
  "\<exists>buf. create_erase_block_heap a n t h = (create_erase_block a n t, h @ [buf])"
proof (cases "0 \<le> a \<and> a \<le> 4294967295 \<and> 0 \<le> n \<and> n \<le> 4294967295
              \<and> 0 \<le> t \<and> t \<le> 4294967295")
  case True
  then show ?thesis by (simp add: create_erase_block_heap_ok create_erase_block_ok)
next
  case False
  then show ?thesis
    using create_erase_block_heap_fail [of a n t h] by (simp add: create_erase_block_fail)
qed

lemma original_step_heap:
  "then_run (bytearray_copy s) (\<lambda>block.
     then_run (pack_into_at block 24 v) (\<lambda>_. bytes_at block)) h
   = (case pack_into_I s 24 v of Inl e \<Rightarrow> (Inl e, h @ [s]) | Inr b \<Rightarrow> (Inr b, h @ [b]))"
  by (simp add: then_run_def bytearray_copy_def pack_into_at_def bytes_at_def split: sum.splits)

lemma read_original_blocks_heap_pure:
  "fst (read_original_blocks_heap data tot is blocks h) = read_original_blocks data tot is blocks"
proof (induction "is" arbitrary: blocks h)
  case Nil
  then show ?case by simp
next
  case (Cons i "is")
  then show ?case by (simp add: original_step_heap split: sum.splits)
qed

lemma add_erase_blocks_heap_pure:
  "fst (add_erase_blocks_heap base original tot is blocks h)
     = add_erase_blocks base original tot is blocks"
proof (induction "is" arbitrary: blocks h)
  case Nil
  then show ?case by simp
next
  case (Cons i "is")
  obtain buf where
    "create_erase_block_heap (int (base + i * BLOCK_SIZE)) (int (original + i)) (int tot) h
       = (create_erase_block (int (base + i * BLOCK_SIZE)) (int (original + i)) (int tot),
          h @ [buf])"
    using create_erase_block_heap_pure by blast
  with Cons show ?case by (simp add: Let_def split: sum.splits)
qed

lemma modify_uf2_heap_pure: "fst (modify_uf2_heap data h) = modify_uf2 data"
proof -
  let ?k = "length data div 512"
  let ?m = "USER_SCRIPT_SIZE div BLOCK_SIZE"
  obtain r h1 where r: "read_original_blocks_heap data (?k + ?m) [0..<?k] [] h = (r, h1)"
    by (cases "read_original_blocks_heap data (?k + ?m) [0..<?k] [] h")
  then have r': "read_original_blocks data (?k + ?m) [0..<?k] [] = r"
    using read_original_blocks_heap_pure [of data "?k + ?m" "[0..<?k]" "[]" h] by simp
  show ?thesis
  proof (cases r)
    case (Inl e)
    with r r' show ?thesis by (simp add: modify_uf2_heap_def modify_uf2_def Let_def then_run_def)
  next
    case (Inr blocks)
    obtain s h2 where s: "add_erase_blocks_heap (0x10000000 + USER_SCRIPT_OFFSET) ?k (?k + ?m)
                            [0..<?m] blocks h1 = (s, h2)"
      by (cases "add_erase_blocks_heap (0x10000000 + USER_SCRIPT_OFFSET) ?k (?k + ?m)
                   [0..<?m] blocks h1")
    then have s': "add_erase_blocks (0x10000000 + USER_SCRIPT_OFFSET) ?k (?k + ?m) [0..<?m] blocks = s"
      using add_erase_blocks_heap_pure
              [of "0x10000000 + USER_SCRIPT_OFFSET" ?k "?k + ?m" "[0..<?m]" blocks h1] by simp
    from Inr r r' s s' show ?thesis
      by (cases s) (simp_all add: modify_uf2_heap_def modify_uf2_def Let_def then_run_def)
  qed
qed

section \<open>The sample images\<close>

lemma length_sample_frame: "length (sample_frame m i c f) = 512"
  by (simp add: sample_frame_def length_le32)

lemma frame_single: "length img = 512 \<Longrightarrow> frame img 0 = img"
  by (simp add: frame_def slice_def)

lemma stale_index_field: "field32 stale_index_image 20 = Some 7"
  by (simp add: stale_index_image_def sample_frame_def le32_def field32_def)

lemma bad_magic_field: "field32 bad_magic_image 0 = Some 0x0A324654"
  by (simp add: bad_magic_image_def sample_frame_def le32_def field32_def)

lemma other_family_field: "field32 other_family_image 28 = Some 0x12345678"
  by (simp add: other_family_image_def sample_frame_def le32_def field32_def)

lemma other_family_flags: "family_present other_family_image"
  by (simp add: family_present_def other_family_image_def sample_frame_def le32_def field32_def)

lemma length_hundred: "length hundred_block_image = 51200"
  using length_concat_512 [of "map (\<lambda>i. sample_frame 0x0A324655 (int i) 100 0xe48bff56) [0..<100]"]
  by (simp add: hundred_block_image_def length_sample_frame)

lemma frame_hundred:
  "i < 100 \<Longrightarrow> frame hundred_block_image i = sample_frame 0x0A324655 (int i) 100 0xe48bff56"
  using frame_concat_512 [of "map (\<lambda>i. sample_frame 0x0A324655 (int i) 100 0xe48bff56) [0..<100]" i]
  by (simp add: hundred_block_image_def length_sample_frame)

lemma sample_count: "field32 (sample_frame m i 100 f) 24 = Some 100"
  by (simp add: sample_frame_def le32_def field32_def)

section \<open>The claims\<close>

subsection \<open>C1: the counters after the transform\<close>

text \<open>
  C1 says that in the output every frame at position \<open>i\<close> has block index \<open>i\<close> and
  block count \<open>n\<close>, the original frames' block index included. The first loop of
  \<open>modify_uf2\<close> writes offset 24 only, so an original frame keeps the block index it came
  with: for the one-frame image whose index field says 7, the output frame at position 0
  still says 7.
\<close>

theorem renumbering_counterexample:
  "\<not> isl (modify_uf2 stale_index_image)
   \<and> field32 (frame (projr (modify_uf2 stale_index_image)) 0) 20 = Some 7"
proof -
  have l: "length stale_index_image = 512"
    by (simp add: stale_index_image_def length_sample_frame)
  then have m: "modify_uf2 stale_index_image = Inr (concat (output_blocks stale_index_image))"
    by (intro modify_uf2_ok) simp
  have "field32 (frame (concat (output_blocks stale_index_image)) 0) 20
          = field32 (frame stale_index_image 0) 20"
    using l by (intro original_field_kept) simp_all
  then show ?thesis using m l by (simp add: frame_single stale_index_field)
qed

text \<open>
  C1 as amended: for an input of \<open>k\<close> whole frames whose new total \<open>n = k + 64\<close> fits 32
  bits, the output has \<open>n\<close> frames; every frame has block count \<open>n\<close>; each of the 64
  synthesized frames has its position as block index; each original frame has the block
  index of the input frame.
\<close>

theorem counters_after_transform:
  assumes "length data div 512 + 64 \<le> 4294967295"
  shows "\<exists>out. modify_uf2 data = Inr out
           \<and> length out = 512 * (length data div 512 + 64)
           \<and> (\<forall>i < length data div 512 + 64.
                 field32 (frame out i) 24 = Some (int (length data div 512 + 64)))
           \<and> (\<forall>i < length data div 512.
                 field32 (frame out i) 20 = field32 (frame data i) 20)
           \<and> (\<forall>i. length data div 512 \<le> i \<and> i < length data div 512 + 64
                 \<longrightarrow> field32 (frame out i) 20 = Some (int i))"
proof -
  let ?k = "length data div 512"
  let ?out = "concat (output_blocks data)"
  have count: "field32 (frame ?out i) 24 = Some (int (?k + 64))" if "i < ?k + 64" for i
  proof (cases "i < ?k")
    case True
    then show ?thesis using assms by (rule original_count)
  next
    case False
    with that have "?k \<le> i" "i < ?k + 64" by simp_all
    then show ?thesis using assms by (simp add: erase_position erase_frame_count)
  qed
  have kept: "field32 (frame ?out i) 20 = field32 (frame data i) 20" if "i < ?k" for i
    using that by (intro original_field_kept) simp_all
  have fresh: "field32 (frame ?out i) 20 = Some (int i)" if "?k \<le> i" "i < ?k + 64" for i
    using that assms by (simp add: erase_position erase_frame_index)
  show ?thesis
    using modify_uf2_ok [OF assms] length_output [of data] count kept fresh by simp
qed

text \<open>
  The amended C1 at the one-frame image: 65 frames come out, the original frame has
  block count 65 and still block index 7, the first synthesized frame has block index 1.
\<close>

theorem counters_after_transform_witness:
  "length stale_index_image div 512 + 64 \<le> 4294967295
   \<and> \<not> isl (modify_uf2 stale_index_image)
   \<and> length (projr (modify_uf2 stale_index_image)) = 33280
   \<and> field32 (frame (projr (modify_uf2 stale_index_image)) 0) 24 = Some 65
   \<and> field32 (frame (projr (modify_uf2 stale_index_image)) 0) 20 = Some 7
   \<and> field32 (frame (projr (modify_uf2 stale_index_image)) 1) 20 = Some 1"
proof -
  have l: "length stale_index_image = 512"
    by (simp add: stale_index_image_def length_sample_frame)
  then have h: "length stale_index_image div 512 + 64 \<le> 4294967295" by simp
  from counters_after_transform [OF h] obtain out where
    o: "modify_uf2 stale_index_image = Inr out"
    and n: "length out = 512 * (length stale_index_image div 512 + 64)"
    and c: "\<forall>i < length stale_index_image div 512 + 64.
              field32 (frame out i) 24 = Some (int (length stale_index_image div 512 + 64))"
    and k: "\<forall>i < length stale_index_image div 512.
              field32 (frame out i) 20 = field32 (frame stale_index_image i) 20"
    and f: "\<forall>i. length stale_index_image div 512 \<le> i
                \<and> i < length stale_index_image div 512 + 64
              \<longrightarrow> field32 (frame out i) 20 = Some (int i)"
    by blast
  from c l have "field32 (frame out 0) 24 = Some 65" by simp
  moreover from k l have "field32 (frame out 0) 20 = Some 7"
    by (simp add: frame_single stale_index_field)
  moreover from f l have "field32 (frame out 1) 20 = Some 1" by simp
  ultimately show ?thesis using h o n l by simp
qed

subsection \<open>C2: an input that ends in a partial frame\<close>

text \<open>
  C2 says that loading an input of length \<open>512 * k + r\<close> with \<open>0 < r < 512\<close> fails with
  a TruncatedImage error. The tool has no such check: \<open>original_blocks\<close> is the length
  divided by 512, rounded down, and the bytes after the last whole frame are never read.
  For the 513-byte image the transform succeeds, with the result it has for the first
  512 bytes alone.
\<close>

theorem truncated_image_counterexample:
  "\<not> isl (modify_uf2 dangling_image)
   \<and> length dangling_image = 512 * 1 + 1
   \<and> modify_uf2 dangling_image = modify_uf2 (take 512 dangling_image)"
proof -
  have l: "length dangling_image = 513"
    by (simp add: dangling_image_def length_sample_frame)
  then have m: "modify_uf2 dangling_image = Inr (concat (output_blocks dangling_image))"
    by (intro modify_uf2_ok) simp
  have "modify_uf2 (take 512 dangling_image)
          = Inr (concat (output_blocks (take 512 dangling_image)))"
    using l by (intro modify_uf2_ok) simp
  moreover have "output_blocks (take 512 dangling_image) = output_blocks dangling_image"
    using output_blocks_take [of dangling_image] l by simp
  ultimately show ?thesis using m l by simp
qed

text \<open>
  C2 as amended: for an input of length \<open>512 * k + r\<close> with \<open>0 < r < 512\<close> (and
  \<open>k + 64\<close> within 32 bits) the transform does not fail; the \<open>r\<close> trailing bytes are
  dropped, and the output is that of the first \<open>512 * k\<close> bytes, \<open>k + 64\<close> frames long.
\<close>

theorem partial_frame_dropped:
  assumes "length data = 512 * k + r" "0 < r" "r < 512" "k + 64 \<le> 4294967295"
  shows "\<exists>out. modify_uf2 data = Inr out \<and> modify_uf2 (take (512 * k) data) = Inr out
           \<and> length out = 512 * (k + 64)"
proof -
  have k: "length data div 512 = k" using assms(1,3) by simp
  have "modify_uf2 data = Inr (concat (output_blocks data))"
    using assms(4) k by (intro modify_uf2_ok) simp
  moreover have "modify_uf2 (take (512 * k) data)
                   = Inr (concat (output_blocks (take (512 * k) data)))"
    using assms(4) len_take_frames [of data] k by (intro modify_uf2_ok) simp
  moreover have "output_blocks (take (512 * k) data) = output_blocks data"
    using output_blocks_take [of data] k by simp
  ultimately show ?thesis using length_output [of data] k by simp
qed

text \<open>The amended C2 at the 513-byte image (\<open>k = 1\<close>, \<open>r = 1\<close>).\<close>

theorem partial_frame_dropped_witness:
  "length dangling_image = 512 * 1 + 1 \<and> (0::nat) < 1 \<and> (1::nat) < 512
   \<and> (1::nat) + 64 \<le> 4294967295
   \<and> modify_uf2 dangling_image = modify_uf2 (take (512 * 1) dangling_image)
   \<and> length (projr (modify_uf2 dangling_image)) = 512 * (1 + 64)"
proof -
  have l: "length dangling_image = 512 * 1 + 1"
    by (simp add: dangling_image_def length_sample_frame)
  from partial_frame_dropped [of dangling_image 1 1] l show ?thesis
    by auto
qed

subsection \<open>C3: frames with a wrong magic word\<close>

text \<open>
  C3 says that a frame whose \<open>magic_start0\<close>, \<open>magic_start1\<close> or \<open>magic_end\<close> differs
  from its constant is rejected with InvalidMagic, so that no output is produced. The tool
  never reads a magic word of the input: the three constants are only written, into the
  frames it synthesizes. For the one-frame image whose first magic word is
  \<open>0x0A324654\<close> the transform succeeds and the output frame at position 0 still
  carries that word.
\<close>

theorem invalid_magic_counterexample:
  "field32 (frame bad_magic_image 0) 0 \<noteq> Some UF2_MAGIC_START0
   \<and> \<not> isl (modify_uf2 bad_magic_image)
   \<and> field32 (frame (projr (modify_uf2 bad_magic_image)) 0) 0 = Some 0x0A324654"
proof -
  have l: "length bad_magic_image = 512"
    by (simp add: bad_magic_image_def length_sample_frame)
  then have m: "modify_uf2 bad_magic_image = Inr (concat (output_blocks bad_magic_image))"
    by (intro modify_uf2_ok) simp
  have "field32 (frame (concat (output_blocks bad_magic_image)) 0) 0
          = field32 (frame bad_magic_image 0) 0"
    using l by (intro original_field_kept) simp_all
  then show ?thesis
    using m l by (simp add: frame_single bad_magic_field UF2_MAGIC_START0_def)
qed

text \<open>
  C3 as amended: the transform validates no magic word. Whatever the three magic words
  of the input frames are, the transform succeeds (the new total within 32 bits) and each
  original frame has in the output the magic words it had in the input; the three
  constants are what the 64 synthesized frames carry.
\<close>

theorem magic_words_not_validated:
  assumes "length data div 512 + 64 \<le> 4294967295"
  shows "\<exists>out. modify_uf2 data = Inr out
           \<and> (\<forall>i < length data div 512.
                 field32 (frame out i) 0 = field32 (frame data i) 0
                 \<and> field32 (frame out i) 4 = field32 (frame data i) 4
                 \<and> field32 (frame out i) 508 = field32 (frame data i) 508)
           \<and> (\<forall>i. length data div 512 \<le> i \<and> i < length data div 512 + 64
                 \<longrightarrow> field32 (frame out i) 0 = Some UF2_MAGIC_START0
                     \<and> field32 (frame out i) 4 = Some UF2_MAGIC_START1
                     \<and> field32 (frame out i) 508 = Some UF2_MAGIC_END)"
proof -
  let ?k = "length data div 512"
  let ?out = "concat (output_blocks data)"
  have kept: "field32 (frame ?out i) 0 = field32 (frame data i) 0
              \<and> field32 (frame ?out i) 4 = field32 (frame data i) 4
              \<and> field32 (frame ?out i) 508 = field32 (frame data i) 508" if "i < ?k" for i
    using that by (simp add: original_field_kept)
  have fresh: "field32 (frame ?out i) 0 = Some UF2_MAGIC_START0
               \<and> field32 (frame ?out i) 4 = Some UF2_MAGIC_START1
               \<and> field32 (frame ?out i) 508 = Some UF2_MAGIC_END"
    if "?k \<le> i" "i < ?k + 64" for i
    using that
    by (simp add: erase_position erase_frame_magic0 erase_frame_magic1 erase_frame_magic_end)
  show ?thesis
    using modify_uf2_ok [OF assms] kept fresh by simp
qed

text \<open>
  The amended C3 at the image with the wrong first magic word: the word is carried to
  the output; the synthesized frame after it has the constant.
\<close>

theorem magic_words_not_validated_witness:
  "length bad_magic_image div 512 + 64 \<le> 4294967295
   \<and> \<not> isl (modify_uf2 bad_magic_image)
   \<and> field32 (frame (projr (modify_uf2 bad_magic_image)) 0) 0 = Some 0x0A324654
   \<and> field32 (frame (projr (modify_uf2 bad_magic_image)) 1) 0 = Some 0x0A324655"
proof -
  have l: "length bad_magic_image = 512"
    by (simp add: bad_magic_image_def length_sample_frame)
  then have h: "length bad_magic_image div 512 + 64 \<le> 4294967295" by simp
  from magic_words_not_validated [OF h] obtain out where
    o: "modify_uf2 bad_magic_image = Inr out"
    and k: "\<forall>i < length bad_magic_image div 512.
              field32 (frame out i) 0 = field32 (frame bad_magic_image i) 0
              \<and> field32 (frame out i) 4 = field32 (frame bad_magic_image i) 4
              \<and> field32 (frame out i) 508 = field32 (frame bad_magic_image i) 508"
    and f: "\<forall>i. length bad_magic_image div 512 \<le> i
                \<and> i < length bad_magic_image div 512 + 64
              \<longrightarrow> field32 (frame out i) 0 = Some UF2_MAGIC_START0
                  \<and> field32 (frame out i) 4 = Some UF2_MAGIC_START1
                  \<and> field32 (frame out i) 508 = Some UF2_MAGIC_END"
    by blast
  from k l have "field32 (frame out 0) 0 = Some 0x0A324654"
    by (simp add: frame_single bad_magic_field)
  moreover from f l have "field32 (frame out 1) 0 = Some 0x0A324655"
    by (simp add: UF2_MAGIC_START0_def)
  ultimately show ?thesis using h o by simp
qed

subsection \<open>C4: the synthesized erase blocks\<close>

text \<open>
  C4: for an erase range of length \<open>L\<close>, a positive multiple of 256, at the base
  address \<open>B\<close>, the second loop appends exactly \<open>L / 256\<close> frames to \<open>blocks\<close>, in
  ascending address order. The \<open>i\<close>-th of them has 512 bytes, the target address
  \<open>B + i * 256\<close>, the payload size 256, the byte \<open>0xFF\<close> at each of the 256 payload
  offsets, the family-present bit \<open>0x2000\<close> in its flags, and the end magic
  \<open>0x0AB16F30\<close> at offset 508. The range lies in the 32-bit address space, and the
  block numbers \<open>s + i\<close> and the total \<open>t\<close> are 32-bit values, as the fields of the
  frame are.
\<close>

theorem erase_blocks_cover_range:
  assumes "0 < L" "L mod 256 = 0" "B + L \<le> 4294967296" "s + L div 256 \<le> 4294967296"
    "t \<le> 4294967295"
  shows "\<exists>bs. add_erase_blocks B s t [0..<L div BLOCK_SIZE] blocks = Inr (blocks @ bs)
           \<and> length bs = L div 256
           \<and> (\<forall>i < L div 256.
                 length (bs ! i) = 512
                 \<and> field32 (bs ! i) 12 = Some (int (B + i * 256))
                 \<and> field32 (bs ! i) 16 = Some 256
                 \<and> (\<forall>j < 256. bs ! i ! (32 + j) = 0xFF)
                 \<and> family_present (bs ! i)
                 \<and> field32 (bs ! i) 508 = Some 0x0AB16F30)"
proof -
  let ?n = "L div 256"
  let ?bs = "map (\<lambda>i. erase_frame (int (B + i * 256)) (int (s + i)) (int t)) [0..<?n]"
  have L: "L = 256 * ?n" using assms(2) by (simp add: mod_eq_0_iff_dvd)
  have "0 < ?n" using assms(1) L by simp
  have a: "B + i * 256 \<le> 4294967295" if "i < ?n" for i
  proof -
    have "i * 256 + 256 \<le> ?n * 256" using that by simp
    then show ?thesis using assms(3) L by simp
  qed
  have b: "s + i \<le> 4294967295" if "i < ?n" for i
    using that assms(4) by simp
  have "add_erase_blocks B s t [0..<?n] blocks = Inr (blocks @ ?bs)"
    using assms(5) a b by (intro add_erase_blocks_ok) simp_all
  moreover have "field32 (?bs ! i) 12 = Some (int (B + i * 256))" if "i < ?n" for i
    using that a [OF that] by (simp add: erase_frame_addr)
  ultimately show ?thesis
    by (intro exI [of _ ?bs])
       (simp add: BLOCK_SIZE_def length_erase_frame erase_frame_size erase_frame_payload
          erase_frame_family_present erase_frame_magic_end UF2_MAGIC_END_def)
qed

text \<open>
  C4 at the range of the tool, base \<open>0x101FC000\<close> and length 16384, after 100 original
  blocks: 64 frames, the last one at \<open>0x101FFF00\<close>.
\<close>

theorem erase_blocks_cover_range_witness:
  "(0::nat) < 16384 \<and> (16384::nat) mod 256 = 0 \<and> (0x101FC000::nat) + 16384 \<le> 4294967296
   \<and> (100::nat) + 16384 div 256 \<le> 4294967296 \<and> (164::nat) \<le> 4294967295
   \<and> \<not> isl (add_erase_blocks 0x101FC000 100 164 [0..<16384 div BLOCK_SIZE] [])
   \<and> length (projr (add_erase_blocks 0x101FC000 100 164 [0..<16384 div BLOCK_SIZE] [])) = 64
   \<and> field32 (projr (add_erase_blocks 0x101FC000 100 164 [0..<16384 div BLOCK_SIZE] []) ! 63) 12
       = Some 0x101FFF00"
proof -
  from erase_blocks_cover_range [of 16384 "0x101FC000" 100 164 "[]"] obtain bs where
    o: "add_erase_blocks 0x101FC000 100 164 [0..<16384 div BLOCK_SIZE] [] = Inr ([] @ bs)"
    and n: "length bs = 16384 div 256"
    and p: "\<forall>i < 16384 div 256.
               length (bs ! i) = 512
               \<and> field32 (bs ! i) 12 = Some (int (0x101FC000 + i * 256))
               \<and> field32 (bs ! i) 16 = Some 256
               \<and> (\<forall>j < 256. bs ! i ! (32 + j) = 0xFF)
               \<and> family_present (bs ! i)
               \<and> field32 (bs ! i) 508 = Some 0x0AB16F30"
    by auto
  from p have "field32 (bs ! 63) 12 = Some 0x101FFF00" by simp
  then show ?thesis using o n by simp
qed

subsection \<open>C5: the length of the extended image\<close>

text \<open>
  C5: for an input of \<open>k\<close> whole frames (\<open>512 * k\<close> bytes, the new total within 32
  bits) the transform yields \<open>k + m\<close> frames, where \<open>m\<close> is 16384 / 256 = 64. Each of
  the first \<open>k\<close> frames has the target address and the payload of the input frame, and
  every byte outside the block index and block count fields (offsets 20 to 27) is the
  input's; its block count is \<open>k + 64\<close>. Every payload byte of the 64 new frames is
  \<open>0xFF\<close>.
\<close>

theorem extension_length_law:
  assumes "length data = 512 * k" "k + 64 \<le> 4294967295"
  shows "USER_SCRIPT_SIZE div BLOCK_SIZE = 64
         \<and> (\<exists>out. modify_uf2 data = Inr out
               \<and> length out = 512 * (k + 64)
               \<and> (\<forall>i < k. field32 (frame out i) 12 = field32 (frame data i) 12
                           \<and> payload (frame out i) = payload (frame data i)
                           \<and> (\<forall>j. j < 20 \<or> 28 \<le> j \<longrightarrow> frame out i ! j = frame data i ! j)
                           \<and> field32 (frame out i) 24 = Some (int (k + 64)))
               \<and> (\<forall>i < 64. \<forall>j < 256. frame out (k + i) ! (32 + j) = 0xFF))"
proof -
  let ?out = "concat (output_blocks data)"
  have k: "length data div 512 = k" using assms(1) by simp
  have orig: "field32 (frame ?out i) 12 = field32 (frame data i) 12
              \<and> payload (frame ?out i) = payload (frame data i)
              \<and> (\<forall>j. j < 20 \<or> 28 \<le> j \<longrightarrow> frame ?out i ! j = frame data i ! j)
              \<and> field32 (frame ?out i) 24 = Some (int (k + 64))" if "i < k" for i
  proof -
    from that k have i: "i < length data div 512" by simp
    have "\<forall>j. j < 20 \<or> 28 \<le> j \<longrightarrow> frame ?out i ! j = frame data i ! j"
      using i by (auto simp: original_byte_kept)
    moreover have "field32 (frame ?out i) 24 = Some (int (k + 64))"
      using original_count [OF i] assms(2) k by simp
    ultimately show ?thesis using i by (simp add: original_field_kept payload_kept)
  qed
  have new: "frame ?out (k + i) ! (32 + j) = 0xFF" if "i < 64" "j < 256" for i j
    using that output_erase [of i data] k by (simp add: erase_frame_payload)
  have "modify_uf2 data = Inr ?out" using assms(2) k by (intro modify_uf2_ok) simp
  moreover have "length ?out = 512 * (k + 64)" using length_output [of data] k by simp
  ultimately show ?thesis
    using orig new by (simp add: USER_SCRIPT_SIZE_def BLOCK_SIZE_def)
qed

text \<open>
  C5 in the concrete scenario: the image of 100 frames with block count 100 gives 164
  frames; the block count of the last original frame goes from 100 to 164; the last
  payload byte of the last new frame is \<open>0xFF\<close>.
\<close>

theorem extension_length_law_witness:
  "length hundred_block_image = 512 * 100 \<and> (100::nat) + 64 \<le> 4294967295
   \<and> \<not> isl (modify_uf2 hundred_block_image)
   \<and> length (projr (modify_uf2 hundred_block_image)) = 512 * 164
   \<and> field32 (frame hundred_block_image 99) 24 = Some 100
   \<and> field32 (frame (projr (modify_uf2 hundred_block_image)) 99) 24 = Some 164
   \<and> frame (projr (modify_uf2 hundred_block_image)) 163 ! 287 = 0xFF"
proof -
  have l: "length hundred_block_image = 512 * 100" by (simp add: length_hundred)
  have h: "(100::nat) + 64 \<le> 4294967295" by simp
  from extension_length_law [OF l h] obtain out where
    o: "modify_uf2 hundred_block_image = Inr out"
    and n: "length out = 512 * (100 + 64)"
    and p: "\<forall>i < 100. field32 (frame out i) 12 = field32 (frame hundred_block_image i) 12
                \<and> payload (frame out i) = payload (frame hundred_block_image i)
                \<and> (\<forall>j. j < 20 \<or> 28 \<le> j
                      \<longrightarrow> frame out i ! j = frame hundred_block_image i ! j)
                \<and> field32 (frame out i) 24 = Some (int (100 + 64))"
    and q: "\<forall>i < 64. \<forall>j < 256. frame out (100 + i) ! (32 + j) = 0xFF"
    by blast
  from p have "field32 (frame out 99) 24 = Some 164" by simp
  moreover from q [rule_format, of 63 255] have "frame out 163 ! 287 = 0xFF" by simp
  ultimately show ?thesis using l o n by (simp add: frame_hundred sample_count)
qed

subsection \<open>C6: the family id of the erase blocks\<close>

text \<open>
  C6 says that the family id of the synthesized frames is taken from the last frame of
  the input. \<open>create_erase_block\<close> has no family argument: it packs the constant
  \<open>0xe48bff56\<close> at offset 28. For the one-frame image that is tagged with the family
  \<open>0x12345678\<close>, the first synthesized frame has the family \<open>0xe48bff56\<close>.
\<close>

theorem family_id_counterexample:
  "family_present (frame other_family_image 0)
   \<and> field32 (frame other_family_image 0) 28 = Some 0x12345678
   \<and> \<not> isl (modify_uf2 other_family_image)
   \<and> field32 (frame (projr (modify_uf2 other_family_image)) 1) 28 = Some 0xe48bff56"
proof -
  have l: "length other_family_image = 512"
    by (simp add: other_family_image_def length_sample_frame)
  then have m: "modify_uf2 other_family_image = Inr (concat (output_blocks other_family_image))"
    by (intro modify_uf2_ok) simp
  have "frame (concat (output_blocks other_family_image)) (length other_family_image div 512 + 0)
          = erase_frame (int (0x101FC000 + 0 * 256)) (int (length other_family_image div 512 + 0))
              (int (length other_family_image div 512 + 64))"
    by (rule output_erase) simp
  then have "field32 (frame (concat (output_blocks other_family_image)) 1) 28 = Some 0xe48bff56"
    using l by (simp add: erase_frame_family)
  then show ?thesis
    using m l by (simp add: frame_single other_family_field other_family_flags)
qed

text \<open>
  C6 as amended: the family id written into every synthesized erase block is the
  constant \<open>0xe48bff56\<close>, whatever the input is.
\<close>

theorem family_id_constant:
  assumes "length data div 512 + 64 \<le> 4294967295"
  shows "\<exists>out. modify_uf2 data = Inr out
           \<and> (\<forall>i. length data div 512 \<le> i \<and> i < length data div 512 + 64
                 \<longrightarrow> field32 (frame out i) 28 = Some 0xe48bff56)"
  using modify_uf2_ok [OF assms] by (simp add: erase_position erase_frame_family)

text \<open>The amended C6 at the image tagged \<open>0x12345678\<close>, at its last output frame.\<close>

theorem family_id_constant_witness:
  "length other_family_image div 512 + 64 \<le> 4294967295
   \<and> \<not> isl (modify_uf2 other_family_image)
   \<and> field32 (frame (projr (modify_uf2 other_family_image)) 64) 28 = Some 0xe48bff56"
proof -
  have l: "length other_family_image = 512"
    by (simp add: other_family_image_def length_sample_frame)
  then have h: "length other_family_image div 512 + 64 \<le> 4294967295" by simp
  from family_id_constant [OF h] obtain out where
    o: "modify_uf2 other_family_image = Inr out"
    and f: "\<forall>i. length other_family_image div 512 \<le> i
                \<and> i < length other_family_image div 512 + 64
              \<longrightarrow> field32 (frame out i) 28 = Some 0xe48bff56"
    by blast
  from f l have "field32 (frame out 64) 28 = Some 0xe48bff56" by simp
  then show ?thesis using h o by simp
qed

subsection \<open>C7: determinism\<close>

text \<open>
  C7: erase-block generation is deterministic, and so is the whole transform. The
  statement is about the runs over the store, where a call could depend on what earlier
  calls left behind. For all arguments, whatever the two stores \<open>h\<close> and \<open>h'\<close> are in
  which two calls of \<open>create_erase_block\<close> start, the calls return the same, and so does
  a second call started in the store the first call left; what is returned is a frame of
  512 bytes, or \<open>struct.error\<close> is raised; the call leaves every object that was in the
  store as it was. The transform of the same input bytes returns the same output bytes
  in any two stores, and when it is run a second time after the first.
\<close>

theorem erase_block_deterministic:
  "fst (create_erase_block_heap target_addr block_num total_blocks h)
     = fst (create_erase_block_heap target_addr block_num total_blocks h')
   \<and> fst (create_erase_block_heap target_addr block_num total_blocks
            (snd (create_erase_block_heap target_addr block_num total_blocks h)))
       = fst (create_erase_block_heap target_addr block_num total_blocks h)
   \<and> (case fst (create_erase_block_heap target_addr block_num total_blocks h) of
         Inl e \<Rightarrow> e = StructError | Inr b \<Rightarrow> length b = 512)
   \<and> take (length h) (snd (create_erase_block_heap target_addr block_num total_blocks h)) = h
   \<and> fst (modify_uf2_heap data h) = fst (modify_uf2_heap data h')
   \<and> fst (modify_uf2_heap data (snd (modify_uf2_heap data h))) = fst (modify_uf2_heap data h)"
proof -
  have c: "fst (create_erase_block_heap target_addr block_num total_blocks g)
             = create_erase_block target_addr block_num total_blocks" for g
    using create_erase_block_heap_pure [of target_addr block_num total_blocks g] by auto
  have "case create_erase_block target_addr block_num total_blocks of
          Inl e \<Rightarrow> e = StructError | Inr b \<Rightarrow> length b = 512"
    using create_erase_block_fail [of target_addr block_num total_blocks]
      create_erase_block_ok [of target_addr block_num total_blocks]
    by (cases "0 \<le> target_addr \<and> target_addr \<le> 4294967295 \<and> 0 \<le> block_num
               \<and> block_num \<le> 4294967295 \<and> 0 \<le> total_blocks \<and> total_blocks \<le> 4294967295")
       (simp_all add: length_erase_frame)
  moreover have "take (length h) (snd (create_erase_block_heap target_addr block_num
                                          total_blocks h)) = h"
    using create_erase_block_heap_pure [of target_addr block_num total_blocks h] by auto
  ultimately show ?thesis by (simp add: c modify_uf2_heap_pure)
qed

text \<open>
  C7 at the first erase block of an empty image, started in the empty store and in a
  store that holds a three-byte object: the same frame of 512 bytes, and the three-byte
  object is left as it was.
\<close>

theorem erase_block_deterministic_witness:
  "fst (create_erase_block_heap 0x101FC000 0 64 [])
     = fst (create_erase_block_heap 0x101FC000 0 64 [[1, 2, 3]])
   \<and> \<not> isl (fst (create_erase_block_heap 0x101FC000 0 64 [[1, 2, 3]]))
   \<and> length (projr (fst (create_erase_block_heap 0x101FC000 0 64 [[1, 2, 3]]))) = 512
   \<and> take 1 (snd (create_erase_block_heap 0x101FC000 0 64 [[1, 2, 3]])) = [[1, 2, 3]]
   \<and> fst (modify_uf2_heap [] []) = fst (modify_uf2_heap [] [[1, 2, 3]])"
proof -
  have e: "create_erase_block_heap 0x101FC000 0 64 [[1, 2, 3]]
             = (Inr (erase_frame 0x101FC000 0 64), [[1, 2, 3]] @ [erase_frame 0x101FC000 0 64])"
    by (intro create_erase_block_heap_ok) simp_all
  from erase_block_deterministic [of "0x101FC000" 0 64 "[]" "[[1, 2, 3]]" "[]"]
       erase_block_deterministic [of "0x101FC000" 0 64 "[[1, 2, 3]]" "[]" "[]"] e
  show ?thesis by (simp add: length_erase_frame)
qed

subsection \<open>C8: the length of the output\<close>

text \<open>
  C8: for every input, of any length (the new total within 32 bits), the output has
  \<open>512 * (length div 512 + 64)\<close> bytes, a multiple of 512. The trailing partial frame of
  the input is discarded: the output is the same whatever fewer than 512 bytes follow
  the last whole frame, none included.
\<close>

theorem output_length:
  assumes "length data div 512 + 64 \<le> 4294967295"
  shows "\<exists>out. modify_uf2 data = Inr out
           \<and> length out = 512 * (length data div 512 + 64)
           \<and> length out mod 512 = 0
           \<and> (\<forall>tail. length tail < 512
                 \<longrightarrow> modify_uf2 (take (512 * (length data div 512)) data @ tail) = Inr out)"
proof -
  let ?k = "length data div 512"
  let ?out = "concat (output_blocks data)"
  have "modify_uf2 (take (512 * ?k) data @ tail) = Inr ?out" if "length tail < 512" for tail
  proof -
    have "length (take (512 * ?k) data @ tail) div 512 = ?k"
      using that by (simp add: length_take_frames del: length_take)
    then have "modify_uf2 (take (512 * ?k) data @ tail)
                 = Inr (concat (output_blocks (take (512 * ?k) data @ tail)))"
      using assms by (intro modify_uf2_ok) simp
    then show ?thesis using that by (simp only: output_blocks_replace_tail)
  qed
  then show ?thesis
    using modify_uf2_ok [OF assms] length_output [of data] by simp
qed

text \<open>
  C8 at the 513-byte image: 33280 bytes come out, and the same bytes come out when the
  dangling byte is replaced by three others or removed.
\<close>

theorem output_length_witness:
  "length dangling_image div 512 + 64 \<le> 4294967295
   \<and> \<not> isl (modify_uf2 dangling_image)
   \<and> length dangling_image = 513
   \<and> length (projr (modify_uf2 dangling_image)) = 33280
   \<and> modify_uf2 (take 512 dangling_image @ [1, 2, 3]) = modify_uf2 dangling_image
   \<and> modify_uf2 (take 512 dangling_image @ []) = modify_uf2 dangling_image"
proof -
  have l: "length dangling_image = 513"
    by (simp add: dangling_image_def length_sample_frame)
  then have h: "length dangling_image div 512 + 64 \<le> 4294967295" by simp
  from output_length [OF h] obtain out where
    o: "modify_uf2 dangling_image = Inr out"
    and n: "length out = 512 * (length dangling_image div 512 + 64)"
    and t: "\<forall>tail. length tail < 512
              \<longrightarrow> modify_uf2 (take (512 * (length dangling_image div 512)) dangling_image @ tail)
                  = Inr out"
    by blast
  from t [rule_format, of "[1, 2, 3]"] l
  have "modify_uf2 (take 512 dangling_image @ [1, 2, 3]) = Inr out" by simp
  moreover from t [rule_format, of "[]"] l
  have "modify_uf2 (take 512 dangling_image @ []) = Inr out" by simp
  ultimately show ?thesis using h o n l by simp
qed

subsection \<open>C9: the empty input\<close>

text \<open>
  C9: on the empty input the transform succeeds. The output has 32768 bytes: 64 erase
  blocks, the one at position \<open>i\<close> with block index \<open>i\<close>, block count 64, the target
  address \<open>0x101FC000 + i * 256\<close>, payload size 256 and a payload of \<open>0xFF\<close> bytes.
\<close>

theorem empty_input:
  "\<exists>out. modify_uf2 [] = Inr out
     \<and> length out = 32768
     \<and> (\<forall>i < 64. field32 (frame out i) 20 = Some (int i)
                  \<and> field32 (frame out i) 24 = Some 64
                  \<and> field32 (frame out i) 12 = Some (int (0x101FC000 + i * 256))
                  \<and> field32 (frame out i) 16 = Some 256
                  \<and> (\<forall>j < 256. frame out i ! (32 + j) = 0xFF))"
proof -
  let ?out = "concat (output_blocks [])"
  have m: "modify_uf2 [] = Inr ?out" by (intro modify_uf2_ok) simp
  have f: "frame ?out i = erase_frame (int (0x101FC000 + i * 256)) (int i) 64" if "i < 64" for i
    using that erase_position [of "[]" i] by simp
  have "length ?out = 32768" using length_output [of "[]"] by simp
  with m f show ?thesis
    by (simp add: erase_frame_index erase_frame_count erase_frame_addr erase_frame_size
        erase_frame_payload)
qed

text \<open>C9 at the last position, 63.\<close>

theorem empty_input_witness:
  "(63::nat) < 64 \<and> \<not> isl (modify_uf2 [])
   \<and> length (projr (modify_uf2 [])) = 32768
   \<and> field32 (frame (projr (modify_uf2 [])) 63) 20 = Some 63
   \<and> field32 (frame (projr (modify_uf2 [])) 63) 24 = Some 64"
proof -
  from empty_input obtain out where
    o: "modify_uf2 [] = Inr out"
    and n: "length out = 32768"
    and p: "\<forall>i < 64. field32 (frame out i) 20 = Some (int i)
                  \<and> field32 (frame out i) 24 = Some 64
                  \<and> field32 (frame out i) 12 = Some (int (0x101FC000 + i * 256))
                  \<and> field32 (frame out i) 16 = Some 256
                  \<and> (\<forall>j < 256. frame out i ! (32 + j) = 0xFF)"
    by blast
  from p [rule_format, of 63] have "field32 (frame out 63) 20 = Some 63"
    and "field32 (frame out 63) 24 = Some 64" by simp_all
  then show ?thesis using o n by simp
qed

subsection \<open>C10: what changes in an original frame\<close>

text \<open>
  C10: in an original frame carried into the output only the four bytes at offsets 24 to
  27 are written, with the new total in little-endian order. The 24 bytes before them
  and the 484 bytes after them are the input's, so that the block index field at offset
  20 is unchanged, as are the magics, the flags, the target address, the payload size,
  the family id and the payload.
\<close>

theorem only_block_count_rewritten:
  assumes "length data div 512 + 64 \<le> 4294967295" "i < length data div 512"
  shows "\<exists>out. modify_uf2 data = Inr out
           \<and> length (frame out i) = 512 \<and> length (frame data i) = 512
           \<and> take 24 (frame out i) = take 24 (frame data i)
           \<and> slice (frame out i) 24 28 = le32 (int (length data div 512 + 64))
           \<and> drop 28 (frame out i) = drop 28 (frame data i)
           \<and> (\<forall>j. j < 24 \<or> 28 \<le> j \<longrightarrow> frame out i ! j = frame data i ! j)
           \<and> field32 (frame out i) 20 = field32 (frame data i) 20"
proof -
  let ?out = "concat (output_blocks data)"
  let ?t = "int (length data div 512 + 64)"
  have f: "frame ?out i = put32 (frame data i) 24 ?t"
    using assms(2) by (rule output_original)
  have l: "length (frame data i) = 512" using assms(2) by (rule length_frame)
  have "take 24 (frame ?out i) = take 24 (frame data i)"
    unfolding f using l by (intro take_put32) simp
  moreover have "slice (frame ?out i) 24 28 = le32 ?t"
    unfolding f using l mid_put32 [of 24 "frame data i" ?t] by simp
  moreover have "drop 28 (frame ?out i) = drop 28 (frame data i)"
    unfolding f using l drop_put32 [of 24 "frame data i" ?t] by simp
  moreover have "\<forall>j. j < 24 \<or> 28 \<le> j \<longrightarrow> frame ?out i ! j = frame data i ! j"
    using assms(2) by (auto simp: original_byte_kept)
  moreover have "field32 (frame ?out i) 20 = field32 (frame data i) 20"
    using assms(2) by (intro original_field_kept) simp_all
  moreover have "length (frame ?out i) = 512"
    unfolding f using l by (simp add: length_put32)
  ultimately show ?thesis
    using modify_uf2_ok [OF assms(1)] l by simp
qed

text \<open>C10 at the one-frame image with block index 7: the new block count is 65.\<close>

theorem only_block_count_rewritten_witness:
  "length stale_index_image div 512 + 64 \<le> 4294967295
   \<and> 0 < length stale_index_image div 512
   \<and> \<not> isl (modify_uf2 stale_index_image)
   \<and> take 24 (frame (projr (modify_uf2 stale_index_image)) 0) = take 24 stale_index_image
   \<and> slice (frame (projr (modify_uf2 stale_index_image)) 0) 24 28 = le32 65
   \<and> drop 28 (frame (projr (modify_uf2 stale_index_image)) 0) = drop 28 stale_index_image"
proof -
  have l: "length stale_index_image = 512"
    by (simp add: stale_index_image_def length_sample_frame)
  then have h: "length stale_index_image div 512 + 64 \<le> 4294967295"
    and i: "0 < length stale_index_image div 512" by simp_all
  from only_block_count_rewritten [OF h i] obtain out where
    o: "modify_uf2 stale_index_image = Inr out"
    and a: "take 24 (frame out 0) = take 24 (frame stale_index_image 0)"
    and b: "slice (frame out 0) 24 28 = le32 (int (length stale_index_image div 512 + 64))"
    and c: "drop 28 (frame out 0) = drop 28 (frame stale_index_image 0)"
    by blast
  show ?thesis using h i o a b c l by (simp add: frame_single)
qed

end
